theory Spec2Isabelle
  imports Main
begin

section \<open>The page-transition controller of \<^verbatim>\<open>js/preloader.js\<close>\<close>

text \<open>
  The script registers one \<^verbatim>\<open>DOMContentLoaded\<close> callback. The callback looks up the
  overlay element and the anchors to intercept, attaches one click listener to each of
  those anchors and one \<^verbatim>\<open>load\<close> listener to the window. The development below embeds
  the callback and the two listeners as functions on an explicit page state.
\<close>

subsection \<open>Strings\<close>

text \<open>
  \<^verbatim>\<open>String.prototype.startsWith(p)\<close> with the default position 0: the first
  \<open>length p\<close> code units of the receiver are \<open>p\<close>.
\<close>

definition startsWith :: "string \<Rightarrow> string \<Rightarrow> bool" where
  "startsWith s p = (take (length p) s = p)"

subsection \<open>The document\<close>

text \<open>
  An element carries its tag name, its attributes in source order (the first of two equal
  names wins, as in the HTML parser) and its class list. The class list is kept apart from
  the other attributes: it is the token list that \<^verbatim>\<open>classList\<close> reads and writes.
  A \<open>node\<close> is an object reference. References never dangle in JavaScript, so the
  elements are a total function on references; \<open>nodes\<close> lists the elements that are in
  the document, in tree order.
\<close>

type_synonym node = nat

record element =
  tagName :: string
  attributes :: "(string \<times> string) list"
  classList :: "string list"

record dom =
  els :: "node \<Rightarrow> element"
  nodes :: "node list"

text \<open>\<^verbatim>\<open>el.getAttribute(name)\<close>: the value, or \<^verbatim>\<open>null\<close> (here \<open>None\<close>).\<close>

definition getAttribute :: "dom \<Rightarrow> node \<Rightarrow> string \<Rightarrow> string option" where
  "getAttribute d n name = map_of (attributes (els d n)) name"

text \<open>
  \<^verbatim>\<open>document.querySelector('.transition-preloader')\<close>: the first element in tree order
  that has the class, or \<^verbatim>\<open>null\<close>. Class names are compared exactly, as in a document
  with a doctype (no-quirks mode).
\<close>

definition querySelector_preloader :: "dom \<Rightarrow> node option" where
  "querySelector_preloader d =
     find (\<lambda>n. ''transition-preloader'' \<in> set (classList (els d n))) (nodes d)"

text \<open>
  The selector of line 4 compares the value of \<^verbatim>\<open>target\<close> without regard to ASCII case:
  in an HTML document the values of this attribute (among a fixed list of attributes) match
  an attribute selector case-insensitively, so \<^verbatim>\<open>target="_BLANK"\<close> is excluded like
  \<^verbatim>\<open>target="_blank"\<close>. Tag and attribute names are kept in lower case, as the HTML
  parser stores them.
\<close>

definition ascii_lower :: "char \<Rightarrow> char" where
  "ascii_lower c =
     (case map_of (zip ''ABCDEFGHIJKLMNOPQRSTUVWXYZ'' ''abcdefghijklmnopqrstuvwxyz'') c of
        None \<Rightarrow> c
      | Some l \<Rightarrow> l)"

definition ascii_ci_eq :: "string \<Rightarrow> string \<Rightarrow> bool" where
  "ascii_ci_eq a b = (map ascii_lower a = map ascii_lower b)"

text \<open>
  \<^verbatim>\<open>document.querySelectorAll('a[href]:not([target="_blank"])')\<close>: the anchors that
  carry an \<^verbatim>\<open>href\<close> attribute and that have no \<^verbatim>\<open>target\<close> attribute whose value is
  \<^verbatim>\<open>_blank\<close> up to ASCII case. The resulting node list holds every matching element once,
  in tree order.
\<close>

definition matches_link :: "dom \<Rightarrow> node \<Rightarrow> bool" where
  "matches_link d n =
     (tagName (els d n) = ''a'' \<and>
      getAttribute d n ''href'' \<noteq> None \<and>
      (case getAttribute d n ''target'' of
         None \<Rightarrow> True
       | Some t \<Rightarrow> \<not> ascii_ci_eq t ''_blank''))"

definition querySelectorAll_links :: "dom \<Rightarrow> node list" where
  "querySelectorAll_links d = filter (matches_link d) (remdups (nodes d))"

subsection \<open>The page state\<close>

text \<open>
  What the listeners read and write: the document, the clock in milliseconds, the pending
  one-shot timers (each closure \<^verbatim>\<open>() => { window.location.href = href; }\<close> is the pair
  of its due time and the \<open>href\<close> it captured, in registration order), the value of
  \<^verbatim>\<open>window.location.href\<close>, and the exceptions no listener caught.
\<close>

datatype error = TypeError

record world =
  document :: dom
  now :: nat
  timers :: "(nat \<times> string) list"
  location_href :: string
  uncaught :: "error list"

text \<open>\<^verbatim>\<open>el.classList.add(c)\<close> and \<^verbatim>\<open>el.classList.remove(c)\<close> on the token list.\<close>

definition classList_add :: "node \<Rightarrow> string \<Rightarrow> world \<Rightarrow> world" where
  "classList_add n c w =
     (let d = document w; e = els d n in
      if c \<in> set (classList e) then w
      else w\<lparr>document := d\<lparr>els := (els d)(n := e\<lparr>classList := classList e @ [c]\<rparr>)\<rparr>\<rparr>)"

definition classList_remove :: "node \<Rightarrow> string \<Rightarrow> world \<Rightarrow> world" where
  "classList_remove n c w =
     (let d = document w; e = els d n in
      w\<lparr>document := d\<lparr>els := (els d)(n := e\<lparr>classList := removeAll c (classList e)\<rparr>)\<rparr>\<rparr>)"

text \<open>
  \<^verbatim>\<open>setTimeout(() => { window.location.href = href; }, delay)\<close>: one more pending
  timer, due \<open>delay\<close> milliseconds from now.
\<close>

definition setTimeout :: "string \<Rightarrow> nat \<Rightarrow> world \<Rightarrow> world" where
  "setTimeout href delay w = w\<lparr>timers := timers w @ [(now w + delay, href)]\<rparr>"

subsection \<open>The controller\<close>

text \<open>
  The two constants of the \<^verbatim>\<open>DOMContentLoaded\<close> callback. \<open>transitionPreloader\<close> is
  \<open>None\<close> when \<^verbatim>\<open>querySelector\<close> returned \<^verbatim>\<open>null\<close>; \<open>links\<close> are the anchors that
  received a click listener.
\<close>

record controller =
  transitionPreloader :: "node option"
  links :: "node list"

definition onDOMContentLoaded :: "dom \<Rightarrow> controller" where
  "onDOMContentLoaded d =
     \<lparr>transitionPreloader = querySelector_preloader d,
      links = querySelectorAll_links d\<rparr>"

text \<open>The condition of line 10, with its four clauses in source order.\<close>

definition isInternal :: "string \<Rightarrow> bool" where
  "isInternal href =
     (startsWith href ''/'' \<or> startsWith href ''./'' \<or> startsWith href ''../'' \<or>
      \<not> startsWith href ''http'')"

text \<open>
  What one run of a listener leaves behind: whether it called \<^verbatim>\<open>e.preventDefault()\<close>,
  the exception that ended it (if any), and the page state. Effects made before an
  exception stay.
\<close>

record outcome =
  defaultPrevented :: bool
  thrown :: "error option"
  after :: world

text \<open>
  The click listener of one anchor \<open>link\<close> (lines 7 to 18). \<^verbatim>\<open>href.startsWith\<close> on
  \<^verbatim>\<open>null\<close> and \<^verbatim>\<open>transitionPreloader.classList\<close> on \<^verbatim>\<open>null\<close> raise a TypeError; the
  second one comes after \<^verbatim>\<open>e.preventDefault()\<close> and before \<^verbatim>\<open>setTimeout\<close>.
\<close>

definition click_listener :: "controller \<Rightarrow> node \<Rightarrow> world \<Rightarrow> outcome" where
  "click_listener ctl link w =
     (case getAttribute (document w) link ''href'' of
        None \<Rightarrow> \<lparr>defaultPrevented = False, thrown = Some TypeError, after = w\<rparr>
      | Some href \<Rightarrow>
          if isInternal href then
            (case transitionPreloader ctl of
               None \<Rightarrow> \<lparr>defaultPrevented = True, thrown = Some TypeError, after = w\<rparr>
             | Some ov \<Rightarrow>
                 \<lparr>defaultPrevented = True, thrown = None,
                  after = setTimeout href 500 (classList_add ov ''active'' w)\<rparr>)
          else \<lparr>defaultPrevented = False, thrown = None, after = w\<rparr>)"

text \<open>
  A click that reaches element \<open>n\<close>: its listener runs when it has one; otherwise
  nothing of the controller runs and the browser's default action is untouched.
\<close>

definition dispatch_click :: "controller \<Rightarrow> node \<Rightarrow> world \<Rightarrow> outcome" where
  "dispatch_click ctl n w =
     (if n \<in> set (links ctl) then click_listener ctl n w
      else \<lparr>defaultPrevented = False, thrown = None, after = w\<rparr>)"

text \<open>The \<^verbatim>\<open>load\<close> listener (lines 22 to 24).\<close>

definition load_listener :: "controller \<Rightarrow> world \<Rightarrow> outcome" where
  "load_listener ctl w =
     (case transitionPreloader ctl of
        None \<Rightarrow> \<lparr>defaultPrevented = False, thrown = Some TypeError, after = w\<rparr>
      | Some ov \<Rightarrow>
          \<lparr>defaultPrevented = False, thrown = None,
           after = classList_remove ov ''active'' w\<rparr>)"

subsection \<open>The event loop\<close>

text \<open>
  The events of one page after \<^verbatim>\<open>DOMContentLoaded\<close>: a click reaching an element, the
  window's \<^verbatim>\<open>load\<close> event, time passing, and the event loop running a timer. A timer
  runs only once it is due, and of several due timers the one registered first runs
  first; running it assigns \<^verbatim>\<open>window.location.href\<close> and removes it (it is one-shot). An
  exception that ends a listener is reported and the loop goes on.
\<close>

datatype event = Click node | Load | Tick nat | Timeout

definition run_timer :: "world \<Rightarrow> world" where
  "run_timer w =
     (case find (\<lambda>t. fst t \<le> now w) (timers w) of
        None \<Rightarrow> w
      | Some t \<Rightarrow> w\<lparr>timers := remove1 t (timers w), location_href := snd t\<rparr>)"

definition report :: "outcome \<Rightarrow> world" where
  "report r =
     (case thrown r of
        None \<Rightarrow> after r
      | Some e \<Rightarrow> (after r)\<lparr>uncaught := uncaught (after r) @ [e]\<rparr>)"

fun step :: "controller \<Rightarrow> world \<Rightarrow> event \<Rightarrow> world" where
  "step ctl w (Click n) = report (dispatch_click ctl n w)"
| "step ctl w Load = report (load_listener ctl w)"
| "step ctl w (Tick ms) = w\<lparr>now := now w + ms\<rparr>"
| "step ctl w Timeout = run_timer w"

definition run :: "controller \<Rightarrow> world \<Rightarrow> event list \<Rightarrow> world" where
  "run ctl w evs = foldl (step ctl) w evs"

text \<open>Whether the overlay the controller holds carries the marker class.\<close>

definition overlay_active :: "controller \<Rightarrow> world \<Rightarrow> bool" where
  "overlay_active ctl w =
     (case transitionPreloader ctl of
        None \<Rightarrow> False
      | Some ov \<Rightarrow> ''active'' \<in> set (classList (els (document w) ov)))"

text \<open>
  A click on \<open>n\<close> qualifies when \<open>n\<close> has the listener and its \<^verbatim>\<open>href\<close>, read now,
  passes the condition of line 10.
\<close>

definition qualifying :: "controller \<Rightarrow> world \<Rightarrow> node \<Rightarrow> bool" where
  "qualifying ctl w n =
     (n \<in> set (links ctl) \<and>
      (case getAttribute (document w) n ''href'' of
         None \<Rightarrow> False
       | Some href \<Rightarrow> isInternal href))"

subsection \<open>Notions used to state the properties\<close>

text \<open>
  Two documents agree at node \<open>n\<close> up to the marker: the same nodes are in the
  document, \<open>n\<close> has the same tag name and attributes, its class list is the same once
  the token \<^verbatim>\<open>active\<close> is left out, and when \<open>n\<close> is not the overlay the controller holds
  the element is the same altogether.
\<close>

definition same_but_marker :: "controller \<Rightarrow> dom \<Rightarrow> dom \<Rightarrow> node \<Rightarrow> bool" where
  "same_but_marker ctl d d' n =
     (nodes d' = nodes d \<and>
      tagName (els d' n) = tagName (els d n) \<and>
      attributes (els d' n) = attributes (els d n) \<and>
      removeAll ''active'' (classList (els d' n)) = removeAll ''active'' (classList (els d n)) \<and>
      (transitionPreloader ctl \<noteq> Some n \<longrightarrow> els d' n = els d n))"

text \<open>The time that passes in a trace, in milliseconds.\<close>

fun elapsed :: "event list \<Rightarrow> nat" where
  "elapsed [] = 0"
| "elapsed (Tick ms # evs) = ms + elapsed evs"
| "elapsed (ev # evs) = elapsed evs"

text \<open>The nodes clicked in a trace, in order.\<close>

fun clicks :: "event list \<Rightarrow> node list" where
  "clicks [] = []"
| "clicks (Click n # evs) = n # clicks evs"
| "clicks (ev # evs) = clicks evs"

text \<open>
  The timers the specification expects a trace of clicks to leave pending, written from
  its words (one one-shot timer per click, 500 ms after the click, for the clicked
  anchor's \<^verbatim>\<open>href\<close>): \<open>t\<close> is the clock at the start of the trace and \<open>d\<close> the
  document the attributes are read from.
\<close>

fun expected_timers :: "dom \<Rightarrow> nat \<Rightarrow> event list \<Rightarrow> (nat \<times> string) list" where
  "expected_timers d t [] = []"
| "expected_timers d t (Click n # evs) =
     (case getAttribute d n ''href'' of None \<Rightarrow> [] | Some h \<Rightarrow> [(t + 500, h)]) @
     expected_timers d t evs"
| "expected_timers d t (Tick ms # evs) = expected_timers d (t + ms) evs"
| "expected_timers d t (ev # evs) = expected_timers d t evs"

subsection \<open>An example page\<close>

text \<open>
  Five elements in tree order: an internal anchor, an external anchor, an internal anchor
  that opens a new tab, the overlay, and a mail anchor.
\<close>

definition blank_element :: element where
  "blank_element = \<lparr>tagName = ''div'', attributes = [], classList = []\<rparr>"

definition page :: dom where
  "page =
     \<lparr>els = (\<lambda>_. blank_element)
        (10 := \<lparr>tagName = ''a'', attributes = [(''href'', ''/about'')], classList = []\<rparr>,
         11 := \<lparr>tagName = ''a'', attributes = [(''href'', ''https://example.com'')],
               classList = [''button'']\<rparr>,
         12 := \<lparr>tagName = ''a'',
               attributes = [(''href'', ''/work''), (''target'', ''_blank'')],
               classList = []\<rparr>,
         13 := \<lparr>tagName = ''div'', attributes = [],
               classList = [''transition-preloader'']\<rparr>,
         14 := \<lparr>tagName = ''a'', attributes = [(''href'', ''mailto:a@b.com'')],
               classList = []\<rparr>),
      nodes = [10, 11, 12, 13, 14]\<rparr>"

definition page0 :: world where
  "page0 = \<lparr>document = page, now = 0, timers = [], location_href = ''/'', uncaught = []\<rparr>"

text \<open>The same page without the overlay element.\<close>

definition bare_page :: dom where
  "bare_page = page\<lparr>nodes := [10, 11, 12, 14]\<rparr>"

text \<open>The same page with the new-tab target written in upper case.\<close>

definition upper_page :: dom where
  "upper_page =
     page\<lparr>els := (els page)
        (12 := \<lparr>tagName = ''a'',
                attributes = [(''href'', ''/work''), (''target'', ''_BLANK'')],
                classList = []\<rparr>)\<rparr>"

text \<open>The controller of the example page, and the page after a click on the first anchor.\<close>

definition page_ctl :: controller where
  "page_ctl = onDOMContentLoaded page"

definition page1 :: world where
  "page1 = step page_ctl page0 (Click 10)"


section \<open>Facts about the operations\<close>

subsection \<open>The selector\<close>

lemma ascii_ci_eq_refl [simp]: "ascii_ci_eq a a"
  by (simp add: ascii_ci_eq_def)

lemma ascii_ci_eq_upper_blank: "ascii_ci_eq ''_BLANK'' ''_blank''"
  by (simp add: ascii_ci_eq_def ascii_lower_def)

lemma matches_link_target:
  assumes "matches_link d n" and "getAttribute d n ''target'' = Some t"
  shows "\<not> ascii_ci_eq t ''_blank''"
  using assms by (simp add: matches_link_def)

subsection \<open>Field by field\<close>

lemma attributes_classList_add [simp]:
  "attributes (els (document (classList_add ov c w)) n) = attributes (els (document w) n)"
  by (simp add: classList_add_def Let_def)

lemma attributes_classList_remove [simp]:
  "attributes (els (document (classList_remove ov c w)) n) = attributes (els (document w) n)"
  by (simp add: classList_remove_def Let_def)

lemma classList_add_member [simp]:
  "c \<in> set (classList (els (document (classList_add ov c w)) ov))"
  by (simp add: classList_add_def Let_def)

lemma classList_remove_member [simp]:
  "c \<notin> set (classList (els (document (classList_remove ov c w)) ov))"
  by (simp add: classList_remove_def Let_def)

lemma classList_add_fields [simp]:
  "now (classList_add ov c w) = now w"
  "timers (classList_add ov c w) = timers w"
  "location_href (classList_add ov c w) = location_href w"
  "uncaught (classList_add ov c w) = uncaught w"
  by (simp_all add: classList_add_def Let_def)

lemma classList_remove_fields [simp]:
  "now (classList_remove ov c w) = now w"
  "timers (classList_remove ov c w) = timers w"
  "location_href (classList_remove ov c w) = location_href w"
  "uncaught (classList_remove ov c w) = uncaught w"
  by (simp_all add: classList_remove_def Let_def)

lemma setTimeout_fields [simp]:
  "document (setTimeout h ms w) = document w"
  "now (setTimeout h ms w) = now w"
  "timers (setTimeout h ms w) = timers w @ [(now w + ms, h)]"
  "location_href (setTimeout h ms w) = location_href w"
  "uncaught (setTimeout h ms w) = uncaught w"
  by (simp_all add: setTimeout_def)

lemma document_report [simp]: "document (report r) = document (after r)"
  by (simp add: report_def split: option.splits)

lemma timers_report [simp]: "timers (report r) = timers (after r)"
  by (simp add: report_def split: option.splits)

lemma now_report [simp]: "now (report r) = now (after r)"
  by (simp add: report_def split: option.splits)

lemma document_run_timer [simp]: "document (run_timer w) = document w"
  by (simp add: run_timer_def split: option.splits)

lemma uncaught_run_timer [simp]: "uncaught (run_timer w) = uncaught w"
  by (simp add: run_timer_def split: option.splits)

lemma links_onDOMContentLoaded:
  "n \<in> set (links (onDOMContentLoaded d)) \<longleftrightarrow> n \<in> set (nodes d) \<and> matches_link d n"
  by (simp add: onDOMContentLoaded_def querySelectorAll_links_def)

subsection \<open>The listeners, case by case\<close>

lemma startsWith_http_not_slash:
  "startsWith h ''http'' \<Longrightarrow> \<not> startsWith h ''/'' \<and> \<not> startsWith h ''./'' \<and> \<not> startsWith h ''../''"
  by (cases h) (auto simp: startsWith_def)

lemma isInternal_external: "startsWith h ''http'' \<Longrightarrow> \<not> isInternal h"
  using startsWith_http_not_slash [of h] by (simp add: isInternal_def)

lemma click_listener_internal:
  assumes "transitionPreloader ctl = Some ov"
    and "getAttribute (document w) link ''href'' = Some h"
    and "isInternal h"
  shows "click_listener ctl link w =
    \<lparr>defaultPrevented = True, thrown = None,
     after = setTimeout h 500 (classList_add ov ''active'' w)\<rparr>"
  using assms by (simp add: click_listener_def)

lemma click_listener_external:
  assumes "getAttribute (document w) link ''href'' = Some h"
    and "\<not> isInternal h"
  shows "click_listener ctl link w = \<lparr>defaultPrevented = False, thrown = None, after = w\<rparr>"
  using assms by (simp add: click_listener_def)

lemma dispatch_click_qualifying:
  assumes "transitionPreloader ctl = Some ov" and "qualifying ctl w n"
  shows "\<exists>h. getAttribute (document w) n ''href'' = Some h \<and> isInternal h \<and>
    dispatch_click ctl n w =
      \<lparr>defaultPrevented = True, thrown = None,
       after = setTimeout h 500 (classList_add ov ''active'' w)\<rparr>"
  using assms
  by (auto simp: qualifying_def dispatch_click_def click_listener_def split: option.splits)

lemma dispatch_click_not_qualifying:
  assumes "\<not> qualifying ctl w n"
  shows "after (dispatch_click ctl n w) = w"
  using assms
  by (auto simp: qualifying_def dispatch_click_def click_listener_def split: option.splits)

subsection \<open>Attributes never change\<close>

lemma attributes_after_dispatch_click [simp]:
  "attributes (els (document (after (dispatch_click ctl n w))) m) = attributes (els (document w) m)"
  by (simp add: dispatch_click_def click_listener_def split: option.splits)

lemma attributes_after_load_listener [simp]:
  "attributes (els (document (after (load_listener ctl w))) m) = attributes (els (document w) m)"
  by (simp add: load_listener_def split: option.splits)

lemma attributes_step [simp]:
  "attributes (els (document (step ctl w ev)) m) = attributes (els (document w) m)"
  by (cases ev) simp_all

lemma getAttribute_step [simp]:
  "getAttribute (document (step ctl w ev)) m a = getAttribute (document w) m a"
  by (simp add: getAttribute_def)

lemma qualifying_step [simp]: "qualifying ctl (step ctl w ev) n = qualifying ctl w n"
  by (simp add: qualifying_def)

lemma run_Nil [simp]: "run ctl w [] = w"
  by (simp add: run_def)

lemma run_Cons [simp]: "run ctl w (ev # evs) = run ctl (step ctl w ev) evs"
  by (simp add: run_def)

lemma run_append [simp]: "run ctl w (evs @ evs') = run ctl (run ctl w evs) evs'"
  by (simp add: run_def)

lemma qualifying_run [simp]: "qualifying ctl (run ctl w evs) n = qualifying ctl w n"
  by (induction evs arbitrary: w) simp_all

subsection \<open>The marker along a trace\<close>

text \<open>
  With an overlay, one event leaves the marker on exactly when it was on and the event is
  not \<open>Load\<close>, or the event is a qualifying click.
\<close>

lemma overlay_active_step:
  assumes "transitionPreloader ctl = Some ov"
  shows "overlay_active ctl (step ctl w ev) \<longleftrightarrow>
    (ev \<noteq> Load \<and> overlay_active ctl w) \<or> (\<exists>n. ev = Click n \<and> qualifying ctl w n)"
proof (cases ev)
  case (Click n)
  show ?thesis
  proof (cases "qualifying ctl w n")
    case True
    from dispatch_click_qualifying [OF assms True] show ?thesis
      using assms Click True by (auto simp: overlay_active_def)
  next
    case False
    then show ?thesis
      using Click assms by (simp add: overlay_active_def dispatch_click_not_qualifying)
  qed
next
  case Load
  then show ?thesis using assms by (simp add: overlay_active_def load_listener_def)
next
  case (Tick ms)
  then show ?thesis using assms by (simp add: overlay_active_def)
next
  case Timeout
  then show ?thesis using assms by (simp add: overlay_active_def)
qed

lemma click_since_load_snoc:
  "(\<exists>pre n post. evs @ [ev] = pre @ Click n # post \<and> Q n \<and> Load \<notin> set post) \<longleftrightarrow>
   (ev \<noteq> Load \<and> (\<exists>pre n post. evs = pre @ Click n # post \<and> Q n \<and> Load \<notin> set post)) \<or>
   (\<exists>n. ev = Click n \<and> Q n)"
  (is "?L \<longleftrightarrow> ?R")
proof
  assume ?L
  then obtain pre n post where e: "evs @ [ev] = pre @ Click n # post"
    and q: "Q n" and l: "Load \<notin> set post" by blast
  show ?R
  proof (cases post rule: rev_cases)
    case Nil
    then have "ev = Click n" using e by simp
    then show ?thesis using q by blast
  next
    case (snoc post' x)
    then have "evs = pre @ Click n # post'" and "ev = x" using e by simp_all
    moreover have "x \<noteq> Load" and "Load \<notin> set post'" using l snoc by auto
    ultimately show ?thesis using q by blast
  qed
next
  assume r: ?R
  show ?L
  proof (cases "\<exists>n. ev = Click n \<and> Q n")
    case True
    then obtain n where "ev = Click n" and "Q n" by blast
    then have "evs @ [ev] = evs @ Click n # [] \<and> Q n \<and> Load \<notin> set []" by simp
    then show ?thesis by blast
  next
    case False
    then obtain pre n post where e: "evs = pre @ Click n # post"
      and q: "Q n" and l: "Load \<notin> set post" and nl: "ev \<noteq> Load" using r by blast
    have "evs @ [ev] = pre @ Click n # (post @ [ev])" using e by simp
    moreover have "Load \<notin> set (post @ [ev])" using l nl by auto
    ultimately show ?thesis using q by blast
  qed
qed

lemma overlay_active_run:
  assumes "transitionPreloader ctl = Some ov"
  shows "overlay_active ctl (run ctl w evs) \<longleftrightarrow>
    (overlay_active ctl w \<and> Load \<notin> set evs) \<or>
    (\<exists>pre n post. evs = pre @ Click n # post \<and> qualifying ctl w n \<and> Load \<notin> set post)"
proof (induction evs rule: rev_induct)
  case Nil
  then show ?case by simp
next
  case (snoc ev evs)
  have s: "overlay_active ctl (run ctl w (evs @ [ev])) \<longleftrightarrow>
    (ev \<noteq> Load \<and> overlay_active ctl (run ctl w evs)) \<or>
    (\<exists>n. ev = Click n \<and> qualifying ctl w n)"
    using overlay_active_step [OF assms, of "run ctl w evs" ev] by simp
  show ?case
    unfolding s snoc.IH click_since_load_snoc [of evs ev "qualifying ctl w"]
    by auto
qed

subsection \<open>What the listeners leave alone\<close>

lemma same_but_marker_refl: "same_but_marker ctl d d n"
  by (simp add: same_but_marker_def)

lemma same_but_marker_trans:
  "same_but_marker ctl d d' n \<Longrightarrow> same_but_marker ctl d' d'' n \<Longrightarrow> same_but_marker ctl d d'' n"
  by (auto simp: same_but_marker_def)

lemma same_but_marker_add:
  "same_but_marker ctl (document w) (document (classList_add ov ''active'' w)) n
    \<longleftrightarrow> True" if "transitionPreloader ctl = Some ov"
  using that by (simp add: same_but_marker_def classList_add_def Let_def)

lemma same_but_marker_remove:
  "same_but_marker ctl (document w) (document (classList_remove ov ''active'' w)) n
    \<longleftrightarrow> True" if "transitionPreloader ctl = Some ov"
  using that by (simp add: same_but_marker_def classList_remove_def Let_def)

lemma same_but_marker_click:
  "same_but_marker ctl (document w) (document (after (dispatch_click ctl m w))) n"
  by (simp add: dispatch_click_def click_listener_def same_but_marker_refl same_but_marker_add
      split: option.splits)

lemma same_but_marker_load:
  "same_but_marker ctl (document w) (document (after (load_listener ctl w))) n"
  by (simp add: load_listener_def same_but_marker_refl same_but_marker_remove
      split: option.splits)

lemma same_but_marker_step:
  "same_but_marker ctl (document w) (document (step ctl w ev)) n"
  by (cases ev) (simp_all add: same_but_marker_click same_but_marker_load same_but_marker_refl)

lemma same_but_marker_run:
  "same_but_marker ctl (document w) (document (run ctl w evs)) n"
proof (induction evs arbitrary: w)
  case Nil
  then show ?case by (simp add: same_but_marker_refl)
next
  case (Cons ev evs)
  from same_but_marker_trans [OF same_but_marker_step Cons.IH]
  show ?case by simp
qed

subsection \<open>Pending timers along a trace\<close>

lemma expected_timers_cong:
  assumes "\<And>n. getAttribute d n ''href'' = getAttribute d' n ''href''"
  shows "expected_timers d t evs = expected_timers d' t evs"
proof (induction evs arbitrary: t)
  case Nil
  then show ?case by simp
next
  case (Cons ev evs)
  then show ?case by (cases ev) (simp_all add: assms)
qed

lemma length_expected_timers:
  assumes "\<forall>n. Click n \<in> set evs \<longrightarrow> getAttribute d n ''href'' \<noteq> None"
  shows "length (expected_timers d t evs) = length (clicks evs)"
  using assms
  by (induction d t evs rule: expected_timers.induct) (auto split: option.splits)

lemma timers_run:
  assumes "transitionPreloader ctl = Some ov"
    and "Timeout \<notin> set evs"
    and "\<forall>n. Click n \<in> set evs \<longrightarrow> qualifying ctl w n"
  shows "timers (run ctl w evs) = timers w @ expected_timers (document w) (now w) evs"
  using assms(2,3)
proof (induction evs arbitrary: w)
  case Nil
  then show ?case by simp
next
  case (Cons ev evs)
  let ?w = "step ctl w ev"
  have d: "expected_timers (document ?w) t evs = expected_timers (document w) t evs" for t
    by (rule expected_timers_cong) (rule getAttribute_step)
  have "timers (run ctl ?w evs) = timers ?w @ expected_timers (document ?w) (now ?w) evs"
    using Cons.prems by (intro Cons.IH) (simp_all del: step.simps)
  then have ih: "timers (run ctl w (ev # evs)) =
      timers ?w @ expected_timers (document w) (now ?w) evs"
    by (simp add: d del: step.simps)
  show ?case
  proof (cases ev)
    case (Click n)
    then have "qualifying ctl w n" using Cons.prems by simp
    from dispatch_click_qualifying [OF assms(1) this] obtain h where
      "getAttribute (document w) n ''href'' = Some h"
      and "?w = setTimeout h 500 (classList_add ov ''active'' w)"
      using Click by (auto simp: report_def)
    then show ?thesis unfolding ih using Click by simp
  next
    case Load
    then show ?thesis unfolding ih using assms(1) by (simp add: load_listener_def report_def)
  next
    case (Tick ms)
    then show ?thesis unfolding ih by simp
  next
    case Timeout
    then show ?thesis using Cons.prems by simp
  qed
qed

lemma length_timers_run_timer: "length (timers w) \<le> Suc (length (timers (run_timer w)))"
  by (auto simp: run_timer_def length_remove1 split: option.splits)

subsection \<open>A timer is not run before it is due\<close>

lemma now_run_timer [simp]: "now (run_timer w) = now w"
  by (simp add: run_timer_def split: option.splits)

lemma now_after_dispatch_click [simp]: "now (after (dispatch_click ctl n w)) = now w"
  by (simp add: dispatch_click_def click_listener_def split: option.splits)

lemma now_after_load_listener [simp]: "now (after (load_listener ctl w)) = now w"
  by (simp add: load_listener_def split: option.splits)

lemma now_step: "now (step ctl w ev) + elapsed evs = now w + elapsed (ev # evs)"
  by (cases ev) simp_all

lemma pending_run_timer:
  assumes "e \<in> set (timers w)" and "now w < fst e"
  shows "e \<in> set (timers (run_timer w))"
proof (cases "find (\<lambda>t. fst t \<le> now w) (timers w)")
  case None
  then show ?thesis using assms(1) by (simp add: run_timer_def)
next
  case (Some t)
  then have "fst t \<le> now w" by (auto simp: find_Some_iff)
  then have "t \<noteq> e" using assms(2) by auto
  then show ?thesis using assms(1) Some by (simp add: run_timer_def)
qed

lemma pending_step:
  assumes "e \<in> set (timers w)" and "now w < fst e"
  shows "e \<in> set (timers (step ctl w ev))"
proof (cases ev)
  case (Click n)
  then show ?thesis using assms(1)
    by (auto simp: dispatch_click_def click_listener_def split: option.splits)
next
  case Load
  then show ?thesis using assms(1) by (simp add: load_listener_def split: option.splits)
next
  case (Tick ms)
  then show ?thesis using assms(1) by simp
next
  case Timeout
  then show ?thesis using pending_run_timer [OF assms] by simp
qed

lemma pending_run:
  assumes "e \<in> set (timers w)" and "now w + elapsed evs < fst e"
  shows "e \<in> set (timers (run ctl w evs))"
  using assms
proof (induction evs arbitrary: w)
  case Nil
  then show ?case by simp
next
  case (Cons ev evs)
  have "now w \<le> now w + elapsed (ev # evs)" by simp
  then have "now w < fst e" using Cons.prems(2) by linarith
  from pending_step [OF Cons.prems(1) this]
  have "e \<in> set (timers (step ctl w ev))" .
  moreover have "now (step ctl w ev) + elapsed evs < fst e"
    using Cons.prems(2) now_step [of ctl w ev evs] by simp
  ultimately show ?case using Cons.IH by simp
qed

subsection \<open>Exceptions along a trace\<close>

lemma uncaught_step:
  assumes "transitionPreloader ctl = Some ov"
    and "\<And>n. ev = Click n \<Longrightarrow> qualifying ctl w n"
  shows "uncaught (step ctl w ev) = uncaught w"
proof (cases ev)
  case (Click n)
  then have "qualifying ctl w n" using assms(2) by simp
  from dispatch_click_qualifying [OF assms(1) this] show ?thesis
    using Click by (auto simp: report_def)
next
  case Load
  then show ?thesis using assms(1) by (simp add: load_listener_def report_def)
next
  case (Tick ms)
  then show ?thesis by simp
next
  case Timeout
  then show ?thesis by simp
qed

lemma uncaught_run:
  assumes "transitionPreloader ctl = Some ov"
    and "\<forall>n. Click n \<in> set evs \<longrightarrow> qualifying ctl w n"
  shows "uncaught (run ctl w evs) = uncaught w"
  using assms(2)
proof (induction evs arbitrary: w)
  case Nil
  then show ?case by simp
next
  case (Cons ev evs)
  have "uncaught (step ctl w ev) = uncaught w"
    using Cons.prems by (intro uncaught_step [OF assms(1)]) simp
  moreover have "uncaught (run ctl (step ctl w ev) evs) = uncaught (step ctl w ev)"
    using Cons.prems by (intro Cons.IH) simp
  ultimately show ?case by simp
qed

lemma load_twice:
  assumes "transitionPreloader ctl = Some ov"
  shows "step ctl (step ctl w Load) Load = step ctl w Load"
  using assms by (simp add: load_listener_def report_def classList_remove_def Let_def)

lemma click_twice_document:
  assumes "transitionPreloader ctl = Some ov"
    and "qualifying ctl w n" and "qualifying ctl w m"
  shows "document (step ctl (step ctl w (Click n)) (Click m)) = document (step ctl w (Click n))"
proof -
  let ?w = "step ctl w (Click n)"
  from dispatch_click_qualifying [OF assms(1,2)] obtain h where
    1: "?w = setTimeout h 500 (classList_add ov ''active'' w)"
    by (auto simp: report_def)
  have "qualifying ctl ?w m"
    using assms(3) qualifying_step [of ctl w "Click n" m] by blast
  from dispatch_click_qualifying [OF assms(1) this] obtain h' where
    2: "step ctl ?w (Click m) = setTimeout h' 500 (classList_add ov ''active'' ?w)"
    by (auto simp: report_def)
  have "''active'' \<in> set (classList (els (document ?w) ov))"
    unfolding 1 by simp
  then have "classList_add ov ''active'' ?w = ?w"
    by (simp add: classList_add_def)
  then show ?thesis unfolding 2 by simp
qed

lemma step_without_overlay:
  assumes "transitionPreloader ctl = None"
  shows "document (step ctl w ev) = document w \<and> (timers w = [] \<longrightarrow> timers (step ctl w ev) = [])"
  using assms
  by (cases ev)
    (simp_all add: dispatch_click_def click_listener_def load_listener_def run_timer_def
      split: option.splits)

lemma run_without_overlay:
  assumes "transitionPreloader ctl = None"
  shows "document (run ctl w evs) = document w \<and> (timers w = [] \<longrightarrow> timers (run ctl w evs) = [])"
proof (induction evs arbitrary: w)
  case Nil
  then show ?case by simp
next
  case (Cons ev evs)
  show ?case
    using step_without_overlay [OF assms, of w ev] Cons.IH [of "step ctl w ev"] by simp
qed

subsection \<open>The example page, evaluated\<close>

lemma page_links: "links (onDOMContentLoaded page) = [10, 11, 14]"
  by (simp add: onDOMContentLoaded_def querySelectorAll_links_def matches_link_def
      getAttribute_def page_def)

lemma upper_page_links: "links (onDOMContentLoaded upper_page) = [10, 11, 14]"
  by (simp add: onDOMContentLoaded_def querySelectorAll_links_def matches_link_def
      getAttribute_def upper_page_def page_def ascii_ci_eq_upper_blank)

lemma page_overlay: "transitionPreloader (onDOMContentLoaded page) = Some 13"
  by (simp add: onDOMContentLoaded_def querySelector_preloader_def page_def)

lemma page_href:
  "getAttribute page 10 ''href'' = Some ''/about''"
  "getAttribute page 11 ''href'' = Some ''https://example.com''"
  "getAttribute page 12 ''href'' = Some ''/work''"
  "getAttribute page 12 ''target'' = Some ''_blank''"
  by (simp_all add: getAttribute_def page_def)

lemma page_ctl_eq: "page_ctl = \<lparr>transitionPreloader = Some 13, links = [10, 11, 14]\<rparr>"
  using page_links page_overlay by (simp add: page_ctl_def)

lemma page1_active: "''active'' \<in> set (classList (els (document page1) 13))"
  by (simp add: page1_def page_ctl_eq dispatch_click_def click_listener_def page0_def
      page_href isInternal_def startsWith_def)

lemma bare_page_ctl: "onDOMContentLoaded bare_page = \<lparr>transitionPreloader = None, links = [10, 11, 14]\<rparr>"
  by (simp add: onDOMContentLoaded_def querySelector_preloader_def querySelectorAll_links_def
      matches_link_def getAttribute_def bare_page_def page_def)

lemma page_qualifying: "qualifying page_ctl page0 10" "\<not> qualifying page_ctl page0 11"
  by (simp_all add: qualifying_def page_ctl_eq page0_def page_href isInternal_def startsWith_def)

lemma page0_hidden: "\<not> overlay_active page_ctl page0"
  by (simp add: overlay_active_def page_ctl_eq page0_def page_def)

section \<open>The claims\<close>

subsection \<open>Clicks\<close>

text \<open>
  C1 (as amended). Take an anchor that the selector of line 4 picks when the controller
  initialises (it is in the document, carries an \<^verbatim>\<open>href\<close> attribute and has no
  \<^verbatim>\<open>target\<close> equal to \<^verbatim>\<open>_blank\<close> up to ASCII case), on a page that has the overlay
  element. If its \<^verbatim>\<open>href\<close>, read at the click, does not begin with \<^verbatim>\<open>http\<close>,
  then the click calls \<^verbatim>\<open>preventDefault\<close>, raises nothing, leaves the marker on the
  overlay at once, does not touch \<^verbatim>\<open>window.location.href\<close> itself, and adds exactly one
  pending timer, due 500 ms after the click and carrying that very \<^verbatim>\<open>href\<close>. Whatever
  events follow, that timer is still pending as long as less than 500 ms have passed. With
  no other timer pending, the event loop assigns \<^verbatim>\<open>window.location.href\<close> that value when
  at least 500 ms have passed, and leaves it as it was before then.
\<close>

theorem click_internal_link:
  assumes "link \<in> set (nodes d)" and "matches_link d link"
    and "querySelector_preloader d = Some ov"
    and "getAttribute (document w) link ''href'' = Some h"
    and "\<not> startsWith h ''http''"
  shows "defaultPrevented (dispatch_click (onDOMContentLoaded d) link w) \<and>
    thrown (dispatch_click (onDOMContentLoaded d) link w) = None \<and>
    ''active'' \<in> set (classList (els (document (after (dispatch_click (onDOMContentLoaded d) link w))) ov)) \<and>
    timers (after (dispatch_click (onDOMContentLoaded d) link w)) = timers w @ [(now w + 500, h)] \<and>
    location_href (after (dispatch_click (onDOMContentLoaded d) link w)) = location_href w \<and>
    (\<forall>evs. elapsed evs < 500 \<longrightarrow>
       (now w + 500, h) \<in> set (timers (run (onDOMContentLoaded d) w (Click link # evs)))) \<and>
    (\<forall>ms. timers w = [] \<longrightarrow>
       location_href (run (onDOMContentLoaded d) w [Click link, Tick ms, Timeout]) =
         (if 500 \<le> ms then h else location_href w))"
proof -
  let ?ctl = "onDOMContentLoaded d"
  have l: "link \<in> set (links ?ctl)"
    using assms(1,2) by (simp add: links_onDOMContentLoaded)
  have ov: "transitionPreloader ?ctl = Some ov"
    using assms(3) by (simp add: onDOMContentLoaded_def)
  have int: "isInternal h"
    using assms(5) by (simp add: isInternal_def)
  have r: "dispatch_click ?ctl link w =
    \<lparr>defaultPrevented = True, thrown = None,
     after = setTimeout h 500 (classList_add ov ''active'' w)\<rparr>"
    using l click_listener_internal [OF ov assms(4) int] by (simp add: dispatch_click_def)
  have p: "(now w + 500, h) \<in> set (timers (run ?ctl w (Click link # evs)))"
    if "elapsed evs < 500" for evs
  proof -
    let ?w = "step ?ctl w (Click link)"
    have "(now w + 500, h) \<in> set (timers ?w)" and "now ?w = now w"
      by (simp_all add: r report_def)
    moreover from this that have "now ?w + elapsed evs < fst (now w + 500, h)" by simp
    ultimately show ?thesis using pending_run [of "(now w + 500, h)" ?w evs ?ctl]
      by (simp del: step.simps)
  qed
  have "\<forall>ms. timers w = [] \<longrightarrow>
       location_href (run ?ctl w [Click link, Tick ms, Timeout]) =
         (if 500 \<le> ms then h else location_href w)"
    by (simp add: r run_def report_def run_timer_def)
  then show ?thesis using p by (simp add: r del: run_Cons)
qed

text \<open>
  On the example page: a click on the anchor to \<^verbatim>\<open>/about\<close>, its timer still pending
  499 ms later whatever ran in between, and the location 499 ms and 500 ms after the click.
\<close>

theorem click_internal_link_witness:
  "defaultPrevented (dispatch_click (onDOMContentLoaded page) 10 page0) \<and>
   thrown (dispatch_click (onDOMContentLoaded page) 10 page0) = None \<and>
   ''active'' \<in> set (classList (els (document
      (after (dispatch_click (onDOMContentLoaded page) 10 page0))) 13)) \<and>
   timers (after (dispatch_click (onDOMContentLoaded page) 10 page0)) = [(500, ''/about'')] \<and>
   (500, ''/about'') \<in> set (timers (run (onDOMContentLoaded page) page0
      [Click 10, Tick 400, Timeout, Load, Tick 99, Timeout])) \<and>
   location_href (run (onDOMContentLoaded page) page0 [Click 10, Tick 499, Timeout]) = ''/'' \<and>
   location_href (run (onDOMContentLoaded page) page0 [Click 10, Tick 500, Timeout]) = ''/about''"
proof -
  have a: "(10::nat) \<in> set (nodes page)" by (simp add: page_def)
  have b: "matches_link page 10" by (simp add: matches_link_def getAttribute_def page_def)
  have c: "querySelector_preloader page = Some 13"
    by (simp add: querySelector_preloader_def page_def)
  have d: "getAttribute (document page0) 10 ''href'' = Some ''/about''"
    by (simp add: page0_def page_href)
  have e: "\<not> startsWith ''/about'' ''http''" by (simp add: startsWith_def)
  note t = click_internal_link [OF a b c d e]
  have f: "timers page0 = []" and g: "now page0 = 0" and l: "location_href page0 = ''/''"
    by (simp_all add: page0_def)
  from t have 1: "defaultPrevented (dispatch_click (onDOMContentLoaded page) 10 page0)"
    and 2: "thrown (dispatch_click (onDOMContentLoaded page) 10 page0) = None"
    and 3: "''active'' \<in> set (classList (els (document
      (after (dispatch_click (onDOMContentLoaded page) 10 page0))) 13))"
    by blast+
  from t have "timers (after (dispatch_click (onDOMContentLoaded page) 10 page0)) =
      timers page0 @ [(now page0 + 500, ''/about'')]" by blast
  then have 4: "timers (after (dispatch_click (onDOMContentLoaded page) 10 page0)) =
      [(500, ''/about'')]" unfolding f g by simp
  have "elapsed [Tick 400, Timeout, Load, Tick 99, Timeout] < 500" by simp
  with t have "(now page0 + 500, ''/about'') \<in> set (timers (run (onDOMContentLoaded page) page0
      (Click 10 # [Tick 400, Timeout, Load, Tick 99, Timeout])))" by blast
  then have 5: "(500, ''/about'') \<in> set (timers (run (onDOMContentLoaded page) page0
      [Click 10, Tick 400, Timeout, Load, Tick 99, Timeout]))" unfolding g by simp
  from t f have m: "location_href (run (onDOMContentLoaded page) page0 [Click 10, Tick ms, Timeout]) =
         (if 500 \<le> ms then ''/about'' else location_href page0)" for ms
    by blast
  have 6: "location_href (run (onDOMContentLoaded page) page0 [Click 10, Tick 499, Timeout]) = ''/''"
    unfolding m [of 499] l by simp
  have 7: "location_href (run (onDOMContentLoaded page) page0 [Click 10, Tick 500, Timeout]) = ''/about''"
    unfolding m [of 500] by simp
  from 1 2 3 4 5 6 7 show ?thesis by blast
qed

text \<open>
  Without the restriction to the anchors the controller selected, the statement fails: the
  third anchor of the example page has the \<^verbatim>\<open>href\<close> \<^verbatim>\<open>/work\<close>, which does not begin with
  \<^verbatim>\<open>http\<close>, and \<^verbatim>\<open>target="_blank"\<close>. The selector of line 4 leaves it out, so a click on
  it is not intercepted: the default action stays, the overlay stays unmarked and no timer
  is scheduled. The same happens when the target is written \<^verbatim>\<open>_BLANK\<close>.
\<close>

theorem click_new_tab_link_counterexample:
  "getAttribute page 12 ''href'' = Some ''/work'' \<and>
   \<not> startsWith ''/work'' ''http'' \<and>
   \<not> defaultPrevented (dispatch_click (onDOMContentLoaded page) 12 page0) \<and>
   \<not> overlay_active (onDOMContentLoaded page)
       (after (dispatch_click (onDOMContentLoaded page) 12 page0)) \<and>
   timers (after (dispatch_click (onDOMContentLoaded page) 12 page0)) = [] \<and>
   getAttribute upper_page 12 ''href'' = Some ''/work'' \<and>
   getAttribute upper_page 12 ''target'' = Some ''_BLANK'' \<and>
   \<not> defaultPrevented
       (dispatch_click (onDOMContentLoaded upper_page) 12 (page0\<lparr>document := upper_page\<rparr>)) \<and>
   timers (after
       (dispatch_click (onDOMContentLoaded upper_page) 12 (page0\<lparr>document := upper_page\<rparr>))) = []"
  by (simp add: page_href page_links page_overlay upper_page_links dispatch_click_def
      overlay_active_def startsWith_def page0_def)
    (simp add: getAttribute_def upper_page_def page_def)

text \<open>
  C2. A click on an anchor whose \<^verbatim>\<open>href\<close> begins with \<^verbatim>\<open>http\<close> is not intercepted,
  whether or not the anchor has the listener: \<^verbatim>\<open>preventDefault\<close> is not called, nothing
  is raised and the page state is unchanged, so no marker is added and no timer scheduled.
  The same holds, whatever the \<^verbatim>\<open>href\<close>, for an anchor whose \<^verbatim>\<open>target\<close> is \<^verbatim>\<open>_blank\<close>
  when the controller initialises: it never receives the listener.
\<close>

theorem click_external_or_new_tab_link:
  "(getAttribute (document w) n ''href'' = Some h \<and> startsWith h ''http'' \<longrightarrow>
      dispatch_click ctl n w = \<lparr>defaultPrevented = False, thrown = None, after = w\<rparr>) \<and>
   (getAttribute d n ''target'' = Some ''_blank'' \<longrightarrow>
      dispatch_click (onDOMContentLoaded d) n w =
        \<lparr>defaultPrevented = False, thrown = None, after = w\<rparr>)"
proof (intro conjI impI)
  assume "getAttribute (document w) n ''href'' = Some h \<and> startsWith h ''http''"
  then have "getAttribute (document w) n ''href'' = Some h" and "\<not> isInternal h"
    using isInternal_external [of h] by simp_all
  from click_listener_external [OF this]
  show "dispatch_click ctl n w = \<lparr>defaultPrevented = False, thrown = None, after = w\<rparr>"
    by (simp add: dispatch_click_def)
next
  assume "getAttribute d n ''target'' = Some ''_blank''"
  then have "n \<notin> set (links (onDOMContentLoaded d))"
    by (simp add: links_onDOMContentLoaded matches_link_def)
  then show "dispatch_click (onDOMContentLoaded d) n w =
      \<lparr>defaultPrevented = False, thrown = None, after = w\<rparr>"
    by (simp add: dispatch_click_def)
qed

text \<open>On the example page: the external anchor, and the internal anchor that opens a new tab.\<close>

theorem click_external_or_new_tab_link_witness:
  "dispatch_click (onDOMContentLoaded page) 11 page0 =
     \<lparr>defaultPrevented = False, thrown = None, after = page0\<rparr> \<and>
   dispatch_click (onDOMContentLoaded page) 12 page0 =
     \<lparr>defaultPrevented = False, thrown = None, after = page0\<rparr> \<and>
   getAttribute page 11 ''href'' = Some ''https://example.com'' \<and>
   getAttribute page 12 ''target'' = Some ''_blank'' \<and>
   getAttribute page 12 ''href'' = Some ''/work''"
proof -
  have a: "getAttribute (document page0) 11 ''href'' = Some ''https://example.com'' \<and>
    startsWith ''https://example.com'' ''http''"
    by (simp add: page0_def page_href startsWith_def)
  have b: "getAttribute page 12 ''target'' = Some ''_blank''"
    by (rule page_href)
  note t = click_external_or_new_tab_link
    [where w = page0 and ctl = "onDOMContentLoaded page" and d = page]
  from t [where n = 11 and h = "''https://example.com''"] a
  have "dispatch_click (onDOMContentLoaded page) 11 page0 =
     \<lparr>defaultPrevented = False, thrown = None, after = page0\<rparr>"
    by blast
  moreover from t [where n = 12 and h = "''/work''"] b
  have "dispatch_click (onDOMContentLoaded page) 12 page0 =
     \<lparr>defaultPrevented = False, thrown = None, after = page0\<rparr>"
    by blast
  ultimately show ?thesis by (simp add: page_href)
qed

subsection \<open>Load\<close>

text \<open>
  C3. When the \<^verbatim>\<open>load\<close> event fires on a page whose controller holds an overlay, the
  listener raises nothing and the overlay ends without the marker, whatever the page state
  was before.
\<close>

theorem load_clears_marker:
  assumes "transitionPreloader ctl = Some ov"
  shows "thrown (load_listener ctl w) = None \<and>
    ''active'' \<notin> set (classList (els (document (after (load_listener ctl w))) ov)) \<and>
    \<not> overlay_active ctl (step ctl w Load)"
  using assms by (simp add: load_listener_def overlay_active_def)

text \<open>On the example page, from a state with the marker and from a state without it.\<close>

theorem load_clears_marker_witness:
  "''active'' \<in> set (classList (els (document page1) 13)) \<and>
   ''active'' \<notin> set (classList (els (document (after (load_listener page_ctl page1))) 13)) \<and>
   ''active'' \<notin> set (classList (els (document page0) 13)) \<and>
   ''active'' \<notin> set (classList (els (document (after (load_listener page_ctl page0))) 13))"
proof -
  have ov: "transitionPreloader page_ctl = Some 13" by (simp add: page_ctl_eq)
  have "''active'' \<notin> set (classList (els (document page0) 13))"
    by (simp add: page0_def page_def)
  then show ?thesis
    using load_clears_marker [OF ov, of page1] load_clears_marker [OF ov, of page0] page1_active
    by simp
qed

subsection \<open>Classification\<close>

text \<open>
  C4. For every \<open>href\<close> string, the four-clause condition of line 10 holds exactly when
  the string does not start with \<^verbatim>\<open>http\<close>; each of the first three clauses is absorbed
  by the last one.
\<close>

theorem isInternal_iff_not_http:
  "isInternal h = (\<not> startsWith h ''http'') \<and>
   (startsWith h ''/'' \<or> \<not> startsWith h ''http'') = (\<not> startsWith h ''http'') \<and>
   (startsWith h ''./'' \<or> \<not> startsWith h ''http'') = (\<not> startsWith h ''http'') \<and>
   (startsWith h ''../'' \<or> \<not> startsWith h ''http'') = (\<not> startsWith h ''http'')"
  using startsWith_http_not_slash [of h] unfolding isInternal_def by blast

text \<open>On an internal path, an external address, a mail address and the empty string.\<close>

theorem isInternal_iff_not_http_witness:
  "isInternal ''/about'' \<and> \<not> startsWith ''/about'' ''http'' \<and>
   \<not> isInternal ''https://example.com'' \<and> startsWith ''https://example.com'' ''http'' \<and>
   isInternal ''mailto:a@b.com'' \<and> isInternal ''''"
  using isInternal_iff_not_http [of "''/about''"]
    isInternal_iff_not_http [of "''https://example.com''"]
    isInternal_iff_not_http [of "''mailto:a@b.com''"]
    isInternal_iff_not_http [of "''''"]
  by (simp add: startsWith_def)

subsection \<open>The life cycle of the marker\<close>

text \<open>
  C5 (as amended). On a page whose controller holds an overlay, after any trace of events
  the overlay carries the marker exactly when a qualifying click occurred with no \<open>Load\<close>
  after it, or the marker was there at the start and no \<open>Load\<close> occurred at all. An event
  that puts the marker on is a qualifying click; an event that takes it off is \<open>Load\<close>.
  Time passing and a timer running (the delay elapsing and line 15 assigning
  \<^verbatim>\<open>window.location.href\<close>) leave the marker as it is.
\<close>

theorem marker_between_click_and_load:
  assumes "transitionPreloader ctl = Some ov"
  shows "(overlay_active ctl (run ctl w evs) \<longleftrightarrow>
      (overlay_active ctl w \<and> Load \<notin> set evs) \<or>
      (\<exists>pre n post. evs = pre @ Click n # post \<and> qualifying ctl w n \<and> Load \<notin> set post)) \<and>
    (\<not> overlay_active ctl w \<and> overlay_active ctl (step ctl w ev) \<longrightarrow>
      (\<exists>n. ev = Click n \<and> qualifying ctl w n)) \<and>
    (overlay_active ctl w \<and> \<not> overlay_active ctl (step ctl w ev) \<longrightarrow> ev = Load) \<and>
    overlay_active ctl (step ctl w (Tick ms)) = overlay_active ctl w \<and>
    overlay_active ctl (step ctl w Timeout) = overlay_active ctl w"
  using overlay_active_run [OF assms, of w evs] overlay_active_step [OF assms, of w ev]
    overlay_active_step [OF assms, of w "Tick ms"] overlay_active_step [OF assms, of w Timeout]
  by blast

text \<open>
  On the example page, which starts without the marker: after a click, after the timer of
  that click ran, after a load, and after a click on the external anchor.
\<close>

theorem marker_between_click_and_load_witness:
  "\<not> overlay_active page_ctl page0 \<and>
   overlay_active page_ctl (run page_ctl page0 [Click 10]) \<and>
   overlay_active page_ctl (run page_ctl page0 [Click 10, Tick 500, Timeout]) \<and>
   \<not> overlay_active page_ctl (run page_ctl page0 [Click 10, Tick 100, Load]) \<and>
   \<not> overlay_active page_ctl (run page_ctl page0 [Click 11, Tick 100])"
proof -
  have ov: "transitionPreloader page_ctl = Some 13" by (simp add: page_ctl_eq)
  note m = marker_between_click_and_load [OF ov, of page0]
  have a: "[Click 10] = [] @ Click 10 # [] \<and> qualifying page_ctl page0 10 \<and> Load \<notin> set []"
    by (simp add: page_qualifying)
  have 1: "overlay_active page_ctl (run page_ctl page0 [Click 10])"
    using m [of "[Click 10]"] a by blast
  have b: "[Click 10, Tick 500, Timeout] = [] @ Click 10 # [Tick 500, Timeout] \<and>
    qualifying page_ctl page0 10 \<and> Load \<notin> set [Tick 500, Timeout]"
    by (simp add: page_qualifying)
  have 2: "overlay_active page_ctl (run page_ctl page0 [Click 10, Tick 500, Timeout])"
    using m [of "[Click 10, Tick 500, Timeout]"] b by blast
  have c: "\<not> (\<exists>pre n post. [Click 10, Tick 100, Load] = pre @ Click n # post \<and>
    qualifying page_ctl page0 n \<and> Load \<notin> set post)"
    by (auto simp: append_eq_Cons_conv Cons_eq_append_conv)
  have 3: "\<not> overlay_active page_ctl (run page_ctl page0 [Click 10, Tick 100, Load])"
    using m [of "[Click 10, Tick 100, Load]"] c page0_hidden by blast
  have d: "\<not> (\<exists>pre n post. [Click 11, Tick 100] = pre @ Click n # post \<and>
    qualifying page_ctl page0 n \<and> Load \<notin> set post)"
    by (auto simp: append_eq_Cons_conv Cons_eq_append_conv page_qualifying)
  have 4: "\<not> overlay_active page_ctl (run page_ctl page0 [Click 11, Tick 100])"
    using m [of "[Click 11, Tick 100]"] d page0_hidden by blast
  from page0_hidden 1 2 3 4 show ?thesis by blast
qed

text \<open>
  The interval does not end when the delay elapses and the navigation is caused: on the
  example page, which starts without the marker, a click on the mail anchor qualifies; 500
  ms later its timer runs and assigns \<^verbatim>\<open>window.location.href\<close>, no \<open>Load\<close> has occurred,
  and the overlay still carries the marker.
\<close>

theorem marker_after_navigation_counterexample:
  "\<not> overlay_active page_ctl page0 \<and>
   qualifying page_ctl page0 14 \<and>
   timers (run page_ctl page0 [Click 14, Tick 500]) = [(500, ''mailto:a@b.com'')] \<and>
   timers (run page_ctl page0 [Click 14, Tick 500, Timeout]) = [] \<and>
   location_href (run page_ctl page0 [Click 14, Tick 500, Timeout]) = ''mailto:a@b.com'' \<and>
   overlay_active page_ctl (run page_ctl page0 [Click 14, Tick 500, Timeout])"
  by (simp add: page_ctl_eq qualifying_def overlay_active_def dispatch_click_def
      click_listener_def report_def run_timer_def isInternal_def startsWith_def
      getAttribute_def page0_def classList_add_def Let_def page_def)

subsection \<open>A page without the overlay\<close>

text \<open>
  C6. When no element of the document has the class \<^verbatim>\<open>transition-preloader\<close>, the
  controller holds \<^verbatim>\<open>null\<close> for the overlay, and every later use of it fails: the
  \<^verbatim>\<open>load\<close> listener raises a TypeError, and a qualifying click raises a TypeError after
  having called \<^verbatim>\<open>preventDefault\<close> and before scheduling anything. Nothing recovers from
  this: whatever events follow, the document stays as it is and no navigation is ever
  scheduled.
\<close>

theorem missing_overlay_fails:
  assumes "\<forall>n \<in> set (nodes d). ''transition-preloader'' \<notin> set (classList (els d n))"
  shows "transitionPreloader (onDOMContentLoaded d) = None \<and>
    load_listener (onDOMContentLoaded d) w =
      \<lparr>defaultPrevented = False, thrown = Some TypeError, after = w\<rparr> \<and>
    (qualifying (onDOMContentLoaded d) w n \<longrightarrow>
       dispatch_click (onDOMContentLoaded d) n w =
         \<lparr>defaultPrevented = True, thrown = Some TypeError, after = w\<rparr>) \<and>
    uncaught (step (onDOMContentLoaded d) w Load) = uncaught w @ [TypeError] \<and>
    (qualifying (onDOMContentLoaded d) w n \<longrightarrow>
       uncaught (step (onDOMContentLoaded d) w (Click n)) = uncaught w @ [TypeError]) \<and>
    document (run (onDOMContentLoaded d) w evs) = document w \<and>
    (timers w = [] \<longrightarrow> timers (run (onDOMContentLoaded d) w evs) = [])"
proof -
  let ?ctl = "onDOMContentLoaded d"
  have none: "transitionPreloader ?ctl = None"
    using assms by (simp add: onDOMContentLoaded_def querySelector_preloader_def find_None_iff)
  have load: "load_listener ?ctl w =
      \<lparr>defaultPrevented = False, thrown = Some TypeError, after = w\<rparr>"
    using none by (simp add: load_listener_def)
  have click: "dispatch_click ?ctl n w =
      \<lparr>defaultPrevented = True, thrown = Some TypeError, after = w\<rparr>"
    if "qualifying ?ctl w n"
    using that none
    by (auto simp: qualifying_def dispatch_click_def click_listener_def split: option.splits)
  show ?thesis
    using none load click run_without_overlay [OF none, of w evs]
    by (simp add: report_def)
qed

text \<open>On the example page without its overlay element.\<close>

theorem missing_overlay_fails_witness:
  "querySelector_preloader bare_page = None \<and>
   qualifying (onDOMContentLoaded bare_page) page0 10 \<and>
   load_listener (onDOMContentLoaded bare_page) page0 =
     \<lparr>defaultPrevented = False, thrown = Some TypeError, after = page0\<rparr> \<and>
   dispatch_click (onDOMContentLoaded bare_page) 10 page0 =
     \<lparr>defaultPrevented = True, thrown = Some TypeError, after = page0\<rparr> \<and>
   timers (run (onDOMContentLoaded bare_page) page0 [Click 10, Tick 500, Timeout, Load]) = [] \<and>
   document (run (onDOMContentLoaded bare_page) page0 [Click 10, Tick 500, Timeout, Load]) = page"
proof -
  have a: "\<forall>n \<in> set (nodes bare_page). ''transition-preloader'' \<notin> set (classList (els bare_page n))"
    by (simp add: bare_page_def page_def)
  have q: "qualifying (onDOMContentLoaded bare_page) page0 10"
    by (simp add: qualifying_def bare_page_ctl page0_def page_href isInternal_def startsWith_def)
  have t: "timers page0 = []" and d: "document page0 = page" by (simp_all add: page0_def)
  note m = missing_overlay_fails [OF a, of page0 10 "[Click 10, Tick 500, Timeout, Load]"]
  let ?w = "run (onDOMContentLoaded bare_page) page0 [Click 10, Tick 500, Timeout, Load]"
  from m have "transitionPreloader (onDOMContentLoaded bare_page) = None" by blast
  then have 1: "querySelector_preloader bare_page = None"
    by (simp add: onDOMContentLoaded_def)
  from m q have 2: "load_listener (onDOMContentLoaded bare_page) page0 =
      \<lparr>defaultPrevented = False, thrown = Some TypeError, after = page0\<rparr>"
    and 3: "dispatch_click (onDOMContentLoaded bare_page) 10 page0 =
      \<lparr>defaultPrevented = True, thrown = Some TypeError, after = page0\<rparr>"
    by blast+
  from m t have 4: "timers ?w = []" by blast
  from m have "document ?w = document page0" by blast
  then have 5: "document ?w = page" unfolding d .
  from 1 q 2 3 4 5 show ?thesis by blast
qed

subsection \<open>Repeated events\<close>

text \<open>
  C7. On a page whose controller holds an overlay, any number of \<open>Load\<close> events raises
  nothing and (when there is at least one) leaves the overlay without the marker, and a
  second \<open>Load\<close> changes nothing at all. A trace whose clicks are all qualifying raises
  nothing; when it has at least one click and no \<open>Load\<close>, the overlay carries the marker at
  its end, also across time passing and timers running. A second qualifying click leaves
  the document as the first one left it.
\<close>

theorem repeated_events_idempotent:
  assumes "transitionPreloader ctl = Some ov"
  shows "uncaught (run ctl w (replicate k Load)) = uncaught w \<and>
    (0 < k \<longrightarrow> \<not> overlay_active ctl (run ctl w (replicate k Load))) \<and>
    step ctl (step ctl w Load) Load = step ctl w Load \<and>
    ((\<forall>n. Click n \<in> set evs \<longrightarrow> qualifying ctl w n) \<longrightarrow>
       uncaught (run ctl w evs) = uncaught w) \<and>
    ((\<forall>n. Click n \<in> set evs \<longrightarrow> qualifying ctl w n) \<and> (\<exists>n. Click n \<in> set evs) \<and>
     Load \<notin> set evs \<longrightarrow> overlay_active ctl (run ctl w evs)) \<and>
    (qualifying ctl w n \<and> qualifying ctl w m \<longrightarrow>
       document (step ctl (step ctl w (Click n)) (Click m)) = document (step ctl w (Click n)))"
proof -
  have 1: "uncaught (run ctl w (replicate k Load)) = uncaught w"
    by (rule uncaught_run [OF assms]) simp
  have 2: "\<not> overlay_active ctl (run ctl w (replicate k Load))" if "0 < k"
  proof -
    have "Load \<in> set (replicate k Load)" using that by simp
    moreover have "\<not> (\<exists>pre n post. replicate k Load = pre @ Click n # post \<and>
        qualifying ctl w n \<and> Load \<notin> set post)"
      by (metis event.distinct(1) in_set_conv_decomp in_set_replicate)
    ultimately show ?thesis
      using overlay_active_run [OF assms, of w "replicate k Load"] by blast
  qed
  have 5: "overlay_active ctl (run ctl w evs)"
    if q: "\<forall>n. Click n \<in> set evs \<longrightarrow> qualifying ctl w n"
      and c: "\<exists>n. Click n \<in> set evs" and l: "Load \<notin> set evs"
  proof -
    from c obtain n where n: "Click n \<in> set evs" by blast
    then obtain pre post where e: "evs = pre @ Click n # post"
      by (auto simp: in_set_conv_decomp)
    then have "Load \<notin> set post" using l by simp
    moreover have "qualifying ctl w n" using q n by blast
    ultimately show ?thesis
      using overlay_active_run [OF assms, of w evs] e by blast
  qed
  show ?thesis
    using 1 2 5 load_twice [OF assms] uncaught_run [OF assms, of evs w]
      click_twice_document [OF assms, of w n m]
    by blast
qed

text \<open>On the example page: three loads, and three clicks on two internal anchors.\<close>

theorem repeated_events_idempotent_witness:
  "uncaught (run page_ctl page1 [Load, Load, Load]) = [] \<and>
   \<not> overlay_active page_ctl (run page_ctl page1 [Load, Load, Load]) \<and>
   uncaught (run page_ctl page0 [Click 10, Tick 100, Click 14, Click 10]) = [] \<and>
   overlay_active page_ctl (run page_ctl page0 [Click 10, Tick 100, Click 14, Click 10]) \<and>
   document (step page_ctl (step page_ctl page0 (Click 10)) (Click 14)) =
     document (step page_ctl page0 (Click 10))"
proof -
  have ov: "transitionPreloader page_ctl = Some 13" by (simp add: page_ctl_eq)
  have q: "qualifying page_ctl page0 10" "qualifying page_ctl page0 14"
    by (simp_all add: qualifying_def page_ctl_eq page0_def getAttribute_def page_def
        isInternal_def startsWith_def)
  have u0: "uncaught page0 = []" by (simp add: page0_def)
  have u1: "uncaught page1 = []"
    using uncaught_step [OF ov, of "Click 10" page0] q u0 by (simp add: page1_def)
  have r: "replicate 3 Load = [Load, Load, Load]" by (simp add: numeral_3_eq_3)
  let ?evs = "[Click 10, Tick 100, Click 14, Click 10]"
  have c: "(\<forall>n. Click n \<in> set ?evs \<longrightarrow> qualifying page_ctl page0 n)"
    "\<exists>n. Click n \<in> set ?evs" "Load \<notin> set ?evs"
    using q by auto
  note a = repeated_events_idempotent [OF ov, of page1 3 ?evs 10 14]
  note b = repeated_events_idempotent [OF ov, of page0 3 ?evs 10 14]
  have k: "(0::nat) < 3" by simp
  from a have "uncaught (run page_ctl page1 (replicate 3 Load)) = uncaught page1" by blast
  then have 1: "uncaught (run page_ctl page1 [Load, Load, Load]) = []"
    unfolding r u1 .
  from a k have "\<not> overlay_active page_ctl (run page_ctl page1 (replicate 3 Load))" by blast
  then have 2: "\<not> overlay_active page_ctl (run page_ctl page1 [Load, Load, Load])"
    unfolding r .
  from b c(1) have "uncaught (run page_ctl page0 ?evs) = uncaught page0" by blast
  then have 3: "uncaught (run page_ctl page0 ?evs) = []" unfolding u0 .
  from b c have 4: "overlay_active page_ctl (run page_ctl page0 ?evs)" by blast
  from b q have 5: "document (step page_ctl (step page_ctl page0 (Click 10)) (Click 14)) =
     document (step page_ctl page0 (Click 10))" by blast
  from 1 2 3 4 5 show ?thesis by blast
qed

subsection \<open>Timers\<close>

text \<open>
  C8. On a page whose controller holds an overlay, take a trace in which no timer runs and
  every click is qualifying. The timers pending at its end are those pending at its start
  followed by one timer per click, in click order, each due 500 ms after its click and
  carrying the \<^verbatim>\<open>href\<close> of the clicked anchor; so their number grows by the number of
  clicks and none is dropped. When the event loop runs a timer, at most that one leaves
  the pending timers.
\<close>

theorem one_timer_per_click:
  assumes "transitionPreloader ctl = Some ov"
    and "Timeout \<notin> set evs"
    and "\<forall>n. Click n \<in> set evs \<longrightarrow> qualifying ctl w n"
  shows "timers (run ctl w evs) = timers w @ expected_timers (document w) (now w) evs \<and>
    length (timers (run ctl w evs)) = length (timers w) + length (clicks evs) \<and>
    length (timers w') \<le> Suc (length (timers (step ctl w' Timeout)))"
proof -
  have "\<forall>n. Click n \<in> set evs \<longrightarrow> getAttribute (document w) n ''href'' \<noteq> None"
    using assms(3) by (auto simp: qualifying_def split: option.splits)
  from length_expected_timers [OF this] timers_run [OF assms] length_timers_run_timer [of w']
  show ?thesis by simp
qed

text \<open>
  On the example page: three clicks 100 ms and 50 ms apart, and two clicks of which the
  first one's timer has run.
\<close>

theorem one_timer_per_click_witness:
  "timers (run page_ctl page0 [Click 10, Tick 100, Click 14, Tick 50, Click 10]) =
     [(500, ''/about''), (600, ''mailto:a@b.com''), (650, ''/about'')] \<and>
   length (timers (run page_ctl page0 [Click 10, Tick 100, Click 14, Tick 50, Click 10])) = 3 \<and>
   timers (run page_ctl page0 [Click 10, Tick 100, Click 14, Tick 400, Timeout]) =
     [(600, ''mailto:a@b.com'')]"
proof -
  let ?evs = "[Click 10, Tick 100, Click 14, Tick 50, Click 10]"
  have ov: "transitionPreloader page_ctl = Some 13" by (simp add: page_ctl_eq)
  have q: "qualifying page_ctl page0 10" "qualifying page_ctl page0 14"
    by (simp_all add: qualifying_def page_ctl_eq page0_def getAttribute_def page_def
        isInternal_def startsWith_def)
  have t: "Timeout \<notin> set ?evs" by simp
  have c: "\<forall>n. Click n \<in> set ?evs \<longrightarrow> qualifying page_ctl page0 n"
    using q by auto
  have e: "timers page0 @ expected_timers (document page0) (now page0) ?evs =
      [(500, ''/about''), (600, ''mailto:a@b.com''), (650, ''/about'')]"
    by (simp add: page0_def getAttribute_def page_def)
  note o = one_timer_per_click [OF ov t c]
  from o have 1: "timers (run page_ctl page0 ?evs) =
      [(500, ''/about''), (600, ''mailto:a@b.com''), (650, ''/about'')]"
    unfolding e by blast
  then have 2: "length (timers (run page_ctl page0 ?evs)) = 3" by simp
  have 3: "timers (run page_ctl page0 [Click 10, Tick 100, Click 14, Tick 400, Timeout]) =
     [(600, ''mailto:a@b.com'')]"
    by (simp add: page_ctl_eq dispatch_click_def click_listener_def report_def run_timer_def
        isInternal_def startsWith_def getAttribute_def page0_def classList_add_def Let_def
        page_def)
  from 1 2 3 show ?thesis by blast
qed

subsection \<open>Frame\<close>

text \<open>
  C9. The click listener, the \<^verbatim>\<open>load\<close> listener and any trace of events leave every
  element other than the overlay as it was, add no node to the document and remove none,
  and leave the overlay's tag name, its attributes and every class other than
  \<^verbatim>\<open>active\<close> (with their order) as they were.
\<close>

theorem only_marker_changes:
  "same_but_marker ctl (document w) (document (after (dispatch_click ctl m w))) n \<and>
   same_but_marker ctl (document w) (document (after (load_listener ctl w))) n \<and>
   same_but_marker ctl (document w) (document (run ctl w evs)) n"
  by (simp add: same_but_marker_click same_but_marker_load same_but_marker_run)

text \<open>
  On the example page: the class list of the overlay after a click and after a load, and
  the second anchor after a click and after a whole trace.
\<close>

theorem only_marker_changes_witness:
  "classList (els (document (after (dispatch_click page_ctl 10 page0))) 13) =
     [''transition-preloader'', ''active''] \<and>
   classList (els (document (after (load_listener page_ctl page1))) 13) =
     [''transition-preloader''] \<and>
   els (document (after (dispatch_click page_ctl 10 page0))) 11 = els page 11 \<and>
   els (document (run page_ctl page0 [Click 10, Tick 500, Timeout, Load])) 11 = els page 11 \<and>
   nodes (document (run page_ctl page0 [Click 10, Tick 500, Timeout, Load])) = [10, 11, 12, 13, 14]"
proof -
  have ov: "transitionPreloader page_ctl \<noteq> Some 11" by (simp add: page_ctl_eq)
  have d: "document page0 = page" by (simp add: page0_def)
  note t = only_marker_changes [of page_ctl page0 10 11 "[Click 10, Tick 500, Timeout, Load]"]
  from t ov have "els (document (after (dispatch_click page_ctl 10 page0))) 11 = els page 11"
    and "els (document (run page_ctl page0 [Click 10, Tick 500, Timeout, Load])) 11 = els page 11"
    and "nodes (document (run page_ctl page0 [Click 10, Tick 500, Timeout, Load])) = nodes page"
    unfolding same_but_marker_def d by blast+
  moreover have "nodes page = [10, 11, 12, 13, 14]" by (simp add: page_def)
  moreover have "classList (els (document (after (dispatch_click page_ctl 10 page0))) 13) =
     [''transition-preloader'', ''active'']"
    by (simp add: page_ctl_eq dispatch_click_def click_listener_def page0_def
      page_href isInternal_def startsWith_def classList_add_def) (simp add: page_def)
  moreover have "classList (els (document (after (load_listener page_ctl page1))) 13) =
     [''transition-preloader'']"
    by (simp add: page1_def page_ctl_eq dispatch_click_def click_listener_def page0_def
      page_href isInternal_def startsWith_def classList_add_def load_listener_def
      classList_remove_def report_def) (simp add: page_def)
  ultimately show ?thesis by simp
qed

subsection \<open>When the attribute is read\<close>



end
